theory Spec2Isabelle
  imports Complex_Main
begin

section \<open>Configuration and strings\<close>

text \<open>
  The game logic of \<^verbatim>\<open>assets/scripts/game.js\<close> and the input handling of
  \<^verbatim>\<open>main.js\<close>. A JavaScript string is a sequence of UTF-16 code units; here a
  \<^typ>\<open>char\<close> stands for a code unit below 256 (Basic Latin and Latin-1 Supplement),
  so \<^typ>\<open>string\<close> covers every string the keyboard handler can store and every word
  of the local list. Code units from 256 on are outside the model.
\<close>

record config =
  rows :: nat
  cols :: nat
  wordLength :: nat

definition gameConfig :: config where
  "gameConfig = \<lparr>rows = 6, cols = 5, wordLength = 5\<rparr>"

definition toLowerCaseChar :: "char \<Rightarrow> char" where
  \<comment> \<open>\<^verbatim>\<open>A\<close>..\<^verbatim>\<open>Z\<close> and the Latin-1 capitals U+00C0..U+00DE (without the
      multiplication sign U+00D7) move up by 32; every other code unit below 256 is kept.\<close>
  "toLowerCaseChar c =
     (let n = (of_char c :: nat)
      in if (65 \<le> n \<and> n \<le> 90) \<or> (192 \<le> n \<and> n \<le> 222 \<and> n \<noteq> 215)
         then char_of (n + 32) else c)"

definition toLowerCase :: "string \<Rightarrow> string" where
  "toLowerCase s = map toLowerCaseChar s"

definition fallbackWords :: "string list" where
  "fallbackWords =
     [''apple'', ''grape'', ''vital'', ''spice'', ''quick'',
      ''proxy'', ''flame'', ''serve'', ''crane'', ''blaze'']"

section \<open>Array operations of the host language\<close>

primrec js_includes :: "'a list \<Rightarrow> 'a \<Rightarrow> bool" where
  "js_includes [] x = False"
| "js_includes (y # ys) x = (if y = x then True else js_includes ys x)"

primrec js_indexOf :: "'a list \<Rightarrow> 'a \<Rightarrow> nat option" where
  \<comment> \<open>The first index holding \<open>x\<close>; \<open>None\<close> is the \<^verbatim>\<open>-1\<close> of the source.\<close>
  "js_indexOf [] x = None"
| "js_indexOf (y # ys) x =
     (if y = x then Some 0 else map_option Suc (js_indexOf ys x))"

definition js_nth :: "'a list \<Rightarrow> nat \<Rightarrow> 'a option" where
  \<comment> \<open>\<^verbatim>\<open>xs[i]\<close>; \<open>None\<close> is \<^verbatim>\<open>undefined\<close>, read past the end.\<close>
  "js_nth xs i = (if i < length xs then Some (xs ! i) else None)"

definition js_set :: "'a option list \<Rightarrow> nat \<Rightarrow> 'a \<Rightarrow> 'a option list" where
  \<comment> \<open>\<^verbatim>\<open>xs[i] = v\<close> on an array whose slots may be holes (\<open>None\<close>): a write past the
      end extends the array, leaving holes in between.\<close>
  "js_set xs i v =
     (if i < length xs then xs[i := Some v]
      else xs @ replicate (i - length xs) None @ [Some v])"

section \<open>Word validation\<close>

definition isWordValid :: "string \<Rightarrow> bool" where
  "isWordValid word = js_includes fallbackWords (toLowerCase word)"

section \<open>The guess evaluator\<close>

datatype status = Correct | Misplaced | Wrong

text \<open>
  The three local arrays of \<^verbatim>\<open>checkGuess\<close>. A letter slot is \<open>Some c\<close> or \<open>None\<close> for
  \<^verbatim>\<open>null\<close>; a result slot is \<open>Some s\<close> or \<open>None\<close> for a hole.
\<close>

record evalState =
  result :: "status option list"
  targetLetters :: "char option list"
  guessLetters :: "char option list"

definition initEval :: "string \<Rightarrow> string \<Rightarrow> evalState" where
  "initEval guess target =
     \<lparr>result = replicate (wordLength gameConfig) (Some Wrong),
      targetLetters = map Some target,
      guessLetters = map Some guess\<rparr>"

definition firstStep :: "nat \<Rightarrow> evalState \<Rightarrow> evalState" where
  \<comment> \<open>Body of the first loop. \<^verbatim>\<open>targetLetters[i]\<close> past the end is \<^verbatim>\<open>undefined\<close>,
      which is not \<^verbatim>\<open>===\<close> to a letter or to \<^verbatim>\<open>null\<close>.\<close>
  "firstStep i s =
     (if i < length (targetLetters s) \<and> guessLetters s ! i = targetLetters s ! i
      then s\<lparr>result := js_set (result s) i Correct,
             targetLetters := (targetLetters s)[i := None],
             guessLetters := (guessLetters s)[i := None]\<rparr>
      else s)"

function firstPass :: "nat \<Rightarrow> evalState \<Rightarrow> evalState" where
  "firstPass i s =
     (if i < length (guessLetters s) then firstPass (Suc i) (firstStep i s) else s)"
  by pat_completeness auto
termination
  by (relation "measure (\<lambda>(i, s). length (guessLetters s) - i)")
     (auto simp: firstStep_def)

definition secondStep :: "nat \<Rightarrow> evalState \<Rightarrow> evalState" where
  \<comment> \<open>Body of the second loop. A \<^verbatim>\<open>null\<close> slot is falsy, a one-unit string is truthy.
      \<^verbatim>\<open>indexOf\<close> cannot miss after \<^verbatim>\<open>includes\<close> held; a write at \<^verbatim>\<open>-1\<close> would
      leave the elements as they are.\<close>
  "secondStep i s =
     (case guessLetters s ! i of
        None \<Rightarrow> s
      | Some c \<Rightarrow>
          if js_includes (targetLetters s) (Some c)
          then (let r = js_set (result s) i Misplaced
                in case js_indexOf (targetLetters s) (Some c) of
                     None \<Rightarrow> s\<lparr>result := r\<rparr>
                   | Some index \<Rightarrow>
                       s\<lparr>result := r, targetLetters := (targetLetters s)[index := None]\<rparr>)
          else s)"

function secondPass :: "nat \<Rightarrow> evalState \<Rightarrow> evalState" where
  "secondPass i s =
     (if i < length (guessLetters s) then secondPass (Suc i) (secondStep i s) else s)"
  by pat_completeness auto
termination
  by (relation "measure (\<lambda>(i, s). length (guessLetters s) - i)")
     (auto simp: secondStep_def Let_def split: option.splits)

definition checkGuess :: "string \<Rightarrow> string \<Rightarrow> status option list" where
  "checkGuess guess target = result (secondPass 0 (firstPass 0 (initEval guess target)))"

section \<open>Choosing the target word\<close>

datatype json =
    JNull
  | JBool bool
  | JNumber int
  | JString string
  | JArray "json list"
  | JObject "(string \<times> json) list"

text \<open>
  What the single remote call can do: \<^verbatim>\<open>fetch\<close> rejects, \<^verbatim>\<open>response.json()\<close>
  rejects, or the body parses to a JSON value.
\<close>

datatype remote = FetchRejects | JsonRejects | Resolves json

datatype error = TypeError | SyntaxError

definition tryBlock :: "remote \<Rightarrow> error + string option" where
  \<comment> \<open>The \<^verbatim>\<open>try\<close> block of \<^verbatim>\<open>getRandomWord\<close>: \<open>Inl\<close> is a throw inside it,
      \<open>Inr (Some w)\<close> its \<^verbatim>\<open>return\<close>, \<open>Inr None\<close> falling out of the \<^verbatim>\<open>if\<close>.
      Only a string has \<^verbatim>\<open>toLowerCase\<close>; calling it on any other JSON value throws.\<close>
  "tryBlock r =
     (case r of
        FetchRejects \<Rightarrow> Inl TypeError
      | JsonRejects \<Rightarrow> Inl SyntaxError
      | Resolves data \<Rightarrow>
          (case data of
             JArray (x # xs) \<Rightarrow>
               (case x of JString s \<Rightarrow> Inr (Some (toLowerCase s)) | _ \<Rightarrow> Inl TypeError)
           | _ \<Rightarrow> Inr None))"

definition getRandomWord :: "remote \<Rightarrow> real \<Rightarrow> string option" where
  \<comment> \<open>\<open>u\<close> is the value of \<^verbatim>\<open>Math.random()\<close>, at least 0 and below 1, taken as an
      exact real, and the product is exact too. The source multiplies in double precision:
      where that product rounds up to a whole number (as for 0.7) the source takes the word
      one index above the one taken here; both indices are below the length of the list.
      The result \<open>None\<close> is \<^verbatim>\<open>undefined\<close>, a read of the local list past its end.\<close>
  "getRandomWord r u =
     (case tryBlock r of
        Inr (Some w) \<Rightarrow> Some w
      | _ \<Rightarrow> js_nth fallbackWords (nat \<lfloor>u * real (length fallbackWords)\<rfloor>))"

section \<open>Session state\<close>

record gameState =
  targetWord :: "string option"
  currentRow :: nat
  currentCol :: nat
  grid :: "string list list"

definition gameState0 :: gameState where
  "gameState0 = \<lparr>targetWord = Some [], currentRow = 0, currentCol = 0, grid = []\<rparr>"

definition initialiseGame :: "remote \<Rightarrow> real \<Rightarrow> gameState \<Rightarrow> gameState" where
  \<comment> \<open>Every row is an array of its own, so rows do not alias.\<close>
  "initialiseGame r u st =
     st\<lparr>targetWord := getRandomWord r u,
        currentRow := 0,
        currentCol := 0,
        grid := replicate (rows gameConfig) (replicate (cols gameConfig) [])\<rparr>"

section \<open>The page: input handling\<close>

text \<open>
  What the handlers do to the document is kept as a log of effects; the registration of the
  \<^verbatim>\<open>keydown\<close> listener is the flag \<open>listening\<close>. The text of a message is a
  constructor: \<open>OutOfAttempts w\<close> is the message that shows the target word \<open>w\<close>.
  Console output, the animation classes and the delay before a message is shown are left
  out. A handler runs to its end before the next key event is taken, also across its
  \<^verbatim>\<open>await\<close> of the validation, which settles without waiting for anything.
\<close>

datatype message = NotAValidWord | YouGotIt | OutOfAttempts string

datatype effect =
    UpdateCell nat nat string
  | ShakeMissingCells nat "nat list"
  | ShakeRow nat
  | RevealAttemptResult nat "status option list"
  | ShowMessage message

record page =
  state :: gameState
  listening :: bool
  effects :: "effect list"

datatype outcome = Returned page | Threw error page

fun page_of :: "outcome \<Rightarrow> page" where
  "page_of (Returned p) = p"
| "page_of (Threw e p) = p"

definition emit :: "effect list \<Rightarrow> page \<Rightarrow> page" where
  "emit es p = p\<lparr>effects := effects p @ es\<rparr>"

definition isLetter :: "string \<Rightarrow> bool" where
  \<comment> \<open>\<^verbatim>\<open>letter.length === 1 && /[a-zA-Z]/.test(letter)\<close>\<close>
  "isLetter letter =
     (length letter = 1 \<and>
      list_ex (\<lambda>c. let n = (of_char c :: nat)
                   in (97 \<le> n \<and> n \<le> 122) \<or> (65 \<le> n \<and> n \<le> 90)) letter)"

definition set_slot :: "string list \<Rightarrow> nat \<Rightarrow> string \<Rightarrow> string list" where
  \<comment> \<open>\<^verbatim>\<open>row[i] = v\<close> on a row of the grid. A hole reads as \<^verbatim>\<open>undefined\<close>, which
      \<^verbatim>\<open>join\<close> and the truth test treat as they treat the empty string, so a hole is
      kept as the empty string.\<close>
  "set_slot xs i v =
     (if i < length xs then xs[i := v]
      else xs @ replicate (i - length xs) [] @ [v])"

definition addLetter :: "string \<Rightarrow> page \<Rightarrow> outcome" where
  "addLetter letter p =
     (let st = state p
      in if cols gameConfig \<le> currentCol st \<or> rows gameConfig \<le> currentRow st
         then Returned p
         else case js_nth (grid st) (currentRow st) of
                None \<Rightarrow> Threw TypeError p
              | Some row \<Rightarrow>
                  Returned
                    (emit [UpdateCell (currentRow st) (currentCol st) letter]
                       (p\<lparr>state :=
                            st\<lparr>grid := (grid st)[currentRow st :=
                                          set_slot row (currentCol st) (toLowerCase letter)],
                               currentCol := currentCol st + 1\<rparr>\<rparr>)))"

definition removeLetter :: "page \<Rightarrow> outcome" where
  \<comment> \<open>The cursor is moved back before the grid is written, so a throw at the write
      leaves the cursor moved.\<close>
  "removeLetter p =
     (let st = state p
      in if currentCol st = 0 then Returned p
         else (let col = currentCol st - 1;
                   p1 = p\<lparr>state := st\<lparr>currentCol := col\<rparr>\<rparr>
               in case js_nth (grid st) (currentRow st) of
                    None \<Rightarrow> Threw TypeError p1
                  | Some row \<Rightarrow>
                      Returned
                        (emit [UpdateCell (currentRow st) col []]
                           (p1\<lparr>state :=
                                 (state p1)\<lparr>grid := (grid st)[currentRow st :=
                                                        set_slot row col []]\<rparr>\<rparr>))))"

definition shakeMissingCells :: "nat \<Rightarrow> page \<Rightarrow> outcome" where
  \<comment> \<open>The cells of the row whose slot is falsy: empty, or read past the end.\<close>
  "shakeMissingCells row p =
     (case js_nth (grid (state p)) row of
        None \<Rightarrow>
          if 0 < cols gameConfig then Threw TypeError p
          else Returned (emit [ShakeMissingCells row []] p)
      | Some r \<Rightarrow>
          Returned
            (emit [ShakeMissingCells row
                     (filter (\<lambda>c. case js_nth r c of None \<Rightarrow> True | Some v \<Rightarrow> v = [])
                        [0..<cols gameConfig])] p))"

definition submitGuess :: "page \<Rightarrow> outcome" where
  "submitGuess p =
     (let st = state p
      in if currentCol st < cols gameConfig then shakeMissingCells (currentRow st) p
         else case js_nth (grid st) (currentRow st) of
                None \<Rightarrow> Threw TypeError p
              | Some row \<Rightarrow>
                  (let guess = concat row
                   in if \<not> isWordValid guess
                      then Returned
                             (emit [ShakeRow (currentRow st), ShowMessage NotAValidWord] p)
                      else case targetWord st of
                             None \<Rightarrow> Threw TypeError p
                           | Some target \<Rightarrow>
                               (let p1 = emit [RevealAttemptResult (currentRow st)
                                                 (checkGuess guess target)] p
                                in if guess = target
                                   then Returned
                                          ((emit [ShowMessage YouGotIt] p1)
                                             \<lparr>listening := False\<rparr>)
                                   else (let p2 = p1\<lparr>state :=
                                                      st\<lparr>currentRow := currentRow st + 1,
                                                         currentCol := 0\<rparr>\<rparr>
                                         in if rows gameConfig \<le> currentRow (state p2)
                                            then Returned
                                                   ((emit [ShowMessage
                                                             (OutOfAttempts target)] p2)
                                                      \<lparr>listening := False\<rparr>)
                                            else Returned p2))))"

definition handleKeydown :: "string \<Rightarrow> page \<Rightarrow> outcome" where
  "handleKeydown key p =
     (if isLetter key then addLetter key p
      else if key = ''Backspace'' then removeLetter p
      else if key = ''Enter'' then submitGuess p
      else Returned p)"

definition dispatch :: "string \<Rightarrow> page \<Rightarrow> page" where
  \<comment> \<open>One \<^verbatim>\<open>keydown\<close> event: the handler runs only while it is registered, and a
      throw in it ends the handler and nothing else.\<close>
  "dispatch key p = (if listening p then page_of (handleKeydown key p) else p)"

definition domContentLoaded :: "remote \<Rightarrow> real \<Rightarrow> page" where
  \<comment> \<open>Page load with the grid element present: the game is initialised, then the
      \<^verbatim>\<open>keydown\<close> listener is registered.\<close>
  "domContentLoaded r u =
     \<lparr>state = initialiseGame r u gameState0, listening = True, effects = []\<rparr>"

definition slot_ok :: "string \<Rightarrow> bool" where
  \<comment> \<open>The empty string, or one lowercase letter \<^verbatim>\<open>a\<close>..\<^verbatim>\<open>z\<close>.\<close>
  "slot_ok v =
     (case v of
        [] \<Rightarrow> True
      | c # cs \<Rightarrow> cs = [] \<and> 97 \<le> (of_char c :: nat) \<and> (of_char c :: nat) \<le> 122)"

definition grid_ok :: "string list list \<Rightarrow> bool" where
  "grid_ok g = list_all (list_all slot_ok) g"

section \<open>The guess evaluator over a store\<close>

text \<open>
  The same function \<^verbatim>\<open>checkGuess\<close>, now with its arrays in a store that also holds what
  else the page keeps: the session state, the listener flag and the effects (\<open>globals\<close>),
  and every array allocated so far (\<open>heap\<close>, by address; addresses from \<open>nextAddr\<close> on are
  free). A slot of an array is a string, \<^verbatim>\<open>null\<close>, or \<open>Undefined\<close> for a hole; a read of
  a hole or past the end gives \<open>Undefined\<close> too. The two parameters are strings, which are
  values and share nothing with the store. \<^verbatim>\<open>gameConfig\<close> is written nowhere in the
  program and stays the constant it is above.
\<close>

datatype val = Str string | Null | Undefined

record world =
  globals :: page
  heap :: "nat \<Rightarrow> val list"
  nextAddr :: nat

definition alloc :: "val list \<Rightarrow> world \<Rightarrow> nat \<times> world" where
  \<comment> \<open>A new array: its address, and the store that holds it.\<close>
  "alloc xs w =
     (nextAddr w, w\<lparr>heap := (heap w)(nextAddr w := xs), nextAddr := Suc (nextAddr w)\<rparr>)"

definition read_slot :: "val list \<Rightarrow> nat \<Rightarrow> val" where
  "read_slot xs i = (if i < length xs then xs ! i else Undefined)"

definition write_slot :: "val list \<Rightarrow> nat \<Rightarrow> val \<Rightarrow> val list" where
  \<comment> \<open>\<^verbatim>\<open>xs[i] = v\<close>: a write past the end extends the array, leaving holes.\<close>
  "write_slot xs i v =
     (if i < length xs then xs[i := v]
      else xs @ replicate (i - length xs) Undefined @ [v])"

definition array_set :: "nat \<Rightarrow> nat \<Rightarrow> val \<Rightarrow> world \<Rightarrow> world" where
  "array_set a i v w = w\<lparr>heap := (heap w)(a := write_slot (heap w a) i v)\<rparr>"

definition truthy :: "val \<Rightarrow> bool" where
  \<comment> \<open>Only a non-empty string is truthy among the values of a slot.\<close>
  "truthy v = (case v of Str s \<Rightarrow> s \<noteq> [] | Null \<Rightarrow> False | Undefined \<Rightarrow> False)"

definition firstStepIn :: "nat \<Rightarrow> nat \<Rightarrow> nat \<Rightarrow> nat \<Rightarrow> world \<Rightarrow> world" where
  \<comment> \<open>\<open>r\<close>, \<open>t\<close> and \<open>g\<close> are the addresses of \<^verbatim>\<open>result\<close>, \<^verbatim>\<open>targetLetters\<close> and
      \<^verbatim>\<open>guessLetters\<close>.\<close>
  "firstStepIn r t g i w =
     (if read_slot (heap w g) i = read_slot (heap w t) i
      then array_set g i Null (array_set t i Null (array_set r i (Str ''correct'') w))
      else w)"

function firstPassIn :: "nat \<Rightarrow> nat \<Rightarrow> nat \<Rightarrow> nat \<Rightarrow> world \<Rightarrow> world" where
  "firstPassIn r t g i w =
     (if i < length (heap w g) then firstPassIn r t g (Suc i) (firstStepIn r t g i w) else w)"
  by pat_completeness auto
termination
proof (relation "measure (\<lambda>(r, t, g, i, w). length (heap w g) - i)")
  show "wf (measure (\<lambda>(r, t, g, i, w). length (heap w g) - i))"
    by simp
next
  fix r t g i :: nat and w :: world
  assume i: "i < length (heap w g)"
  have kept: "length (heap (array_set a i v u) g) = length (heap u g)"
    if "i < length (heap u g)" for a v u
    using that by (cases "a = g") (simp_all add: array_set_def write_slot_def)
  from i have "length (heap (firstStepIn r t g i w) g) = length (heap w g)"
    by (simp add: firstStepIn_def kept)
  with i show "((r, t, g, Suc i, firstStepIn r t g i w), (r, t, g, i, w))
                 \<in> measure (\<lambda>(r, t, g, i, w). length (heap w g) - i)"
    by simp
qed

definition secondStepIn :: "nat \<Rightarrow> nat \<Rightarrow> nat \<Rightarrow> nat \<Rightarrow> world \<Rightarrow> world" where
  \<comment> \<open>The value searched for is truthy, so it is a string, and \<^verbatim>\<open>includes\<close> and
      \<^verbatim>\<open>indexOf\<close> compare it with the slots as \<open>=\<close> does. A write at \<^verbatim>\<open>-1\<close> would
      leave the elements as they are.\<close>
  "secondStepIn r t g i w =
     (if truthy (read_slot (heap w g) i) \<and> js_includes (heap w t) (read_slot (heap w g) i)
      then (let w1 = array_set r i (Str ''misplaced'') w
            in case js_indexOf (heap w1 t) (read_slot (heap w1 g) i) of
                 None \<Rightarrow> w1
               | Some index \<Rightarrow> array_set t index Null w1)
      else w)"

function secondPassIn :: "nat \<Rightarrow> nat \<Rightarrow> nat \<Rightarrow> nat \<Rightarrow> world \<Rightarrow> world" where
  "secondPassIn r t g i w =
     (if i < length (heap w g) then secondPassIn r t g (Suc i) (secondStepIn r t g i w) else w)"
  by pat_completeness auto
termination
proof (relation "measure (\<lambda>(r, t, g, i, w). length (heap w g) - i)")
  show "wf (measure (\<lambda>(r, t, g, i, w). length (heap w g) - i))"
    by simp
next
  fix r t g i :: nat and w :: world
  assume i: "i < length (heap w g)"
  have found: "k < length xs" if "js_indexOf xs x = Some k" for xs :: "val list" and x k
    using that by (induction xs arbitrary: k) (auto split: if_splits)
  have kept: "length (heap (array_set a j v u) g) = length (heap u g)"
    if "a = g \<longrightarrow> j < length (heap u g)" for a j v u
    using that by (cases "a = g") (simp_all add: array_set_def write_slot_def)
  let ?w1 = "array_set r i (Str ''misplaced'') w"
  have 1: "length (heap ?w1 g) = length (heap w g)"
    using i by (simp add: kept)
  have 2: "length (heap (array_set t k Null ?w1) g) = length (heap w g)"
    if "js_indexOf (heap ?w1 t) x = Some k" for k x
  proof -
    from found[OF that] have "t = g \<longrightarrow> k < length (heap ?w1 g)" by auto
    from kept[OF this] 1 show ?thesis by simp
  qed
  have "length (heap (secondStepIn r t g i w) g) = length (heap w g)"
    using 1 2 by (simp add: secondStepIn_def Let_def split: option.splits)
  with i show "((r, t, g, Suc i, secondStepIn r t g i w), (r, t, g, i, w))
                 \<in> measure (\<lambda>(r, t, g, i, w). length (heap w g) - i)"
    by simp
qed

definition checkGuessIn :: "string \<Rightarrow> string \<Rightarrow> world \<Rightarrow> nat \<times> world" where
  \<comment> \<open>The call in a store: the address of the array returned, and the store after.\<close>
  "checkGuessIn guess target w =
     (case alloc (replicate (wordLength gameConfig) (Str ''wrong'')) w of
        (r, w1) \<Rightarrow>
          (case alloc (map (\<lambda>c. Str [c]) target) w1 of
             (t, w2) \<Rightarrow>
               (case alloc (map (\<lambda>c. Str [c]) guess) w2 of
                  (g, w3) \<Rightarrow> (r, secondPassIn r t g 0 (firstPassIn r t g 0 w3)))))"

text \<open>
  How the slots of \<open>evalState\<close> are written in the store: a status is its string, a hole
  is \<open>Undefined\<close>; a letter is a string of one code unit, \<open>None\<close> is \<^verbatim>\<open>null\<close>.
\<close>

fun status_val :: "status option \<Rightarrow> val" where
  "status_val None = Undefined"
| "status_val (Some Correct) = Str ''correct''"
| "status_val (Some Misplaced) = Str ''misplaced''"
| "status_val (Some Wrong) = Str ''wrong''"

fun letter_val :: "char option \<Rightarrow> val" where
  "letter_val None = Null"
| "letter_val (Some c) = Str [c]"

section \<open>Example sessions\<close>

text \<open>
  Pages reached from page load by key presses. With the remote call failing and
  \<^verbatim>\<open>Math.random()\<close> at \<open>17 / 20\<close> the target is the word at index 8 of the local
  list, \<^verbatim>\<open>crane\<close>.
\<close>

definition hello_page :: page where
  "hello_page =
     fold dispatch [''h'', ''e'', ''l'', ''l'', ''o'']
       (domContentLoaded (Resolves (JArray [JString ''hello''])) 0)"

definition two_letters_page :: page where
  "two_letters_page = fold dispatch [''a'', ''p''] (domContentLoaded FetchRejects (17 / 20))"

definition apple_page :: page where
  "apple_page =
     fold dispatch [''a'', ''p'', ''p'', ''l'', ''e''] (domContentLoaded FetchRejects (17 / 20))"

definition second_apple_page :: page where
  "second_apple_page =
     fold dispatch
       [''a'', ''p'', ''p'', ''l'', ''e'', ''Enter'', ''A'', ''P'', ''P'', ''L'', ''E'']
       (domContentLoaded FetchRejects (17 / 20))"

definition last_row_page :: page where
  "last_row_page =
     fold dispatch
       (concat (replicate 5 [''a'', ''p'', ''p'', ''l'', ''e'', ''Enter''])
          @ [''c'', ''r'', ''a'', ''n'', ''e''])
       (domContentLoaded FetchRejects (17 / 20))"

text \<open>
  Two stores: one that holds no array yet, and one left by an earlier call on other words,
  with another page.
\<close>

definition fresh_world :: world where
  "fresh_world = \<lparr>globals = apple_page, heap = (\<lambda>a. []), nextAddr = 0\<rparr>"

definition used_world :: world where
  "used_world =
     snd (checkGuessIn ''grape'' ''crane''
            \<lparr>globals = second_apple_page, heap = (\<lambda>a. []), nextAddr = 0\<rparr>)"

section \<open>Auxiliary functions for the proofs\<close>

text \<open>
  The two loops of \<^verbatim>\<open>checkGuess\<close> are related to functions over lists: the first loop
  to a map over the zipped words (\<open>mark1\<close> and \<open>strike\<close> give the slot at one index),
  the second to the recursion \<open>sweep\<close> over the remaining guess letters.
\<close>

definition mark1 :: "char option \<Rightarrow> char option \<Rightarrow> status option \<Rightarrow> status option" where
  "mark1 g t r = (if g = t then Some Correct else r)"

definition strike :: "char option \<Rightarrow> char option \<Rightarrow> char option" where
  "strike a b = (if a = b then None else a)"

definition strike_first :: "'a option list \<Rightarrow> 'a option \<Rightarrow> 'a option list" where
  "strike_first xs x = (case js_indexOf xs x of None \<Rightarrow> xs | Some k \<Rightarrow> xs[k := None])"

fun sweep :: "char option list \<Rightarrow> status option list \<Rightarrow> char option list \<Rightarrow> status option list" where
  "sweep [] rs ts = rs"
| "sweep (g # gs) [] ts = []"
| "sweep (g # gs) (r # rs) ts =
     (case g of
        None \<Rightarrow> r # sweep gs rs ts
      | Some c \<Rightarrow>
          if Some c \<in> set ts then Some Misplaced # sweep gs rs (strike_first ts (Some c))
          else r # sweep gs rs ts)"

text \<open>
  For the evaluator over a store: \<open>sim\<close> says that the three arrays hold what the three
  lists of an \<open>evalState\<close> hold, and \<open>same_outside A\<close> that two stores differ at most
  in the arrays at the addresses in \<open>A\<close>.
\<close>

definition sim :: "nat \<Rightarrow> nat \<Rightarrow> nat \<Rightarrow> world \<Rightarrow> evalState \<Rightarrow> bool" where
  "sim r t g w s \<longleftrightarrow>
     heap w r = map status_val (result s)
     \<and> heap w t = map letter_val (targetLetters s)
     \<and> heap w g = map letter_val (guessLetters s)"

definition same_outside :: "nat set \<Rightarrow> world \<Rightarrow> world \<Rightarrow> bool" where
  "same_outside A w w' \<longleftrightarrow>
     globals w' = globals w \<and> nextAddr w' = nextAddr w
     \<and> (\<forall>a. a \<notin> A \<longrightarrow> heap w' a = heap w a)"

section \<open>The loops of the evaluator as list functions\<close>

lemma js_includes_set: "js_includes xs x \<longleftrightarrow> x \<in> set xs"
  by (induction xs) auto

lemma js_indexOf_Some: "x \<in> set xs \<Longrightarrow> \<exists>k. js_indexOf xs x = Some k \<and> k < length xs \<and> xs ! k = x"
  by (induction xs) auto

lemma length_firstStep [simp]:
  "length (guessLetters (firstStep i s)) = length (guessLetters s)"
  "length (targetLetters (firstStep i s)) = length (targetLetters s)"
  by (simp_all add: firstStep_def)

lemma length_result_firstStep:
  "i < length (result s) \<Longrightarrow> length (result (firstStep i s)) = length (result s)"
  by (simp add: firstStep_def js_set_def)

declare firstPass.simps [simp del] secondPass.simps [simp del]

lemma firstStep_nth:
  assumes "length (result s) = n" "length (targetLetters s) = n" "length (guessLetters s) = n"
    and "i < n" "j < n"
  shows "result (firstStep i s) ! j =
           (if j = i then mark1 (guessLetters s ! j) (targetLetters s ! j) (result s ! j)
            else result s ! j)"
    and "targetLetters (firstStep i s) ! j =
           (if j = i then strike (targetLetters s ! j) (guessLetters s ! j)
            else targetLetters s ! j)"
    and "guessLetters (firstStep i s) ! j =
           (if j = i then strike (guessLetters s ! j) (targetLetters s ! j)
            else guessLetters s ! j)"
  using assms
  by (auto simp: firstStep_def js_set_def mark1_def strike_def nth_list_update)

lemma firstPass_nth:
  assumes "length (result s) = n" "length (targetLetters s) = n" "length (guessLetters s) = n"
  shows "length (result (firstPass i s)) = n \<and> length (targetLetters (firstPass i s)) = n
    \<and> length (guessLetters (firstPass i s)) = n
    \<and> (\<forall>j<n. result (firstPass i s) ! j = (if i \<le> j then mark1 (guessLetters s ! j) (targetLetters s ! j) (result s ! j) else result s ! j)
          \<and> targetLetters (firstPass i s) ! j = (if i \<le> j then strike (targetLetters s ! j) (guessLetters s ! j) else targetLetters s ! j)
          \<and> guessLetters (firstPass i s) ! j = (if i \<le> j then strike (guessLetters s ! j) (targetLetters s ! j) else guessLetters s ! j))"
  using assms
proof (induction i s rule: firstPass.induct)
  case (1 i s)
  show ?case
  proof (cases "i < length (guessLetters s)")
    case False
    with 1 show ?thesis by (simp add: firstPass.simps[of i s])
  next
    case True
    then have i: "i < n" using 1 by simp
    have l: "length (result (firstStep i s)) = n" "length (targetLetters (firstStep i s)) = n" "length (guessLetters (firstStep i s)) = n"
      using True 1(2-4) by (simp_all add: length_result_firstStep)
    note IH = 1(1)[OF True l]
    have eq: "firstPass i s = firstPass (Suc i) (firstStep i s)"
      using True by (simp add: firstPass.simps[of i s])
    have "\<And>j. j < n \<Longrightarrow> Suc i \<le> j \<or> j = i \<or> j < i" by arith
    then show ?thesis unfolding eq using IH
      by (auto simp: firstStep_nth[OF 1(2-4) i])
  qed
qed


lemma secondStep_fields:
  assumes "i < length (guessLetters s)" "i < length (result s)"
  shows "guessLetters (secondStep i s) = guessLetters s"
    and "length (result (secondStep i s)) = length (result s)"
    and "length (targetLetters (secondStep i s)) = length (targetLetters s)"
  using assms
  by (auto simp: secondStep_def js_set_def Let_def split: option.splits)

lemma secondStep_sweep:
  assumes "i < length (guessLetters s)" "i < length (result s)"
  shows "result (secondStep i s) ! i # sweep gs (drop (Suc i) (result (secondStep i s))) (targetLetters (secondStep i s))
       = sweep (guessLetters s ! i # gs) (result s ! i # drop (Suc i) (result s)) (targetLetters s)"
    and "take i (result (secondStep i s)) = take i (result s)"
  using assms
  by (auto simp: secondStep_def js_set_def Let_def js_includes_set strike_first_def
      split: option.splits)

lemma secondPass_sweep:
  assumes "length (result s) = length (guessLetters s)"
  shows "result (secondPass i s) =
           take i (result s) @ sweep (drop i (guessLetters s)) (drop i (result s)) (targetLetters s)"
  using assms
proof (induction i s rule: secondPass.induct)
  case (1 i s)
  show ?case
  proof (cases "i < length (guessLetters s)")
    case False
    with 1(2) show ?thesis by (simp add: secondPass.simps[of i s])
  next
    case True
    then have ir: "i < length (result s)" using 1(2) by simp
    let ?s = "secondStep i s"
    have l: "length (result ?s) = length (guessLetters ?s)"
      using secondStep_fields[OF True ir] 1(2) by simp
    have eq: "secondPass i s = secondPass (Suc i) ?s"
      using True by (simp add: secondPass.simps[of i s])
    have ir': "i < length (result ?s)" using secondStep_fields(2)[OF True ir] ir by simp
    have "result (secondPass i s) =
          take (Suc i) (result ?s) @ sweep (drop (Suc i) (guessLetters s)) (drop (Suc i) (result ?s)) (targetLetters ?s)"
      unfolding eq using 1(1)[OF True l] by (simp add: secondStep_fields(1)[OF True ir])
    also have "\<dots> = take i (result s) @ (result ?s ! i # sweep (drop (Suc i) (guessLetters s)) (drop (Suc i) (result ?s)) (targetLetters ?s))"
      using ir' by (simp add: take_Suc_conv_app_nth secondStep_sweep(2)[OF True ir])
    also have "\<dots> = take i (result s) @ sweep (guessLetters s ! i # drop (Suc i) (guessLetters s)) (result s ! i # drop (Suc i) (result s)) (targetLetters s)"
      by (simp only: secondStep_sweep(1)[OF True ir])
    finally show ?thesis using True ir by (simp add: Cons_nth_drop_Suc)
  qed
qed


lemma firstPass_initEval:
  assumes "length guess = 5" "length target = 5"
  shows "result (firstPass 0 (initEval guess target)) =
           map (\<lambda>(a, b). if a = b then Some Correct else Some Wrong) (zip guess target)"
    and "targetLetters (firstPass 0 (initEval guess target)) =
           map (\<lambda>(a, b). if a = b then None else Some b) (zip guess target)"
    and "guessLetters (firstPass 0 (initEval guess target)) =
           map (\<lambda>(a, b). if a = b then None else Some a) (zip guess target)"
proof -
  let ?s = "initEval guess target"
  have l: "length (result ?s) = 5" "length (targetLetters ?s) = 5" "length (guessLetters ?s) = 5"
    using assms by (simp_all add: initEval_def gameConfig_def)
  note F = firstPass_nth[OF l, of 0]
  show "result (firstPass 0 ?s) =
           map (\<lambda>(a, b). if a = b then Some Correct else Some Wrong) (zip guess target)"
    using F assms by (intro nth_equalityI) (auto simp: initEval_def mark1_def gameConfig_def)
  show "targetLetters (firstPass 0 ?s) =
           map (\<lambda>(a, b). if a = b then None else Some b) (zip guess target)"
    using F assms by (intro nth_equalityI) (auto simp: initEval_def strike_def)
  show "guessLetters (firstPass 0 ?s) =
           map (\<lambda>(a, b). if a = b then None else Some a) (zip guess target)"
    using F assms by (intro nth_equalityI) (auto simp: initEval_def strike_def)
qed

lemma checkGuess_sweep:
  assumes "length guess = 5" "length target = 5"
  shows "checkGuess guess target =
     sweep (map (\<lambda>(a, b). if a = b then None else Some a) (zip guess target))
           (map (\<lambda>(a, b). if a = b then Some Correct else Some Wrong) (zip guess target))
           (map (\<lambda>(a, b). if a = b then None else Some b) (zip guess target))"
proof -
  let ?s = "firstPass 0 (initEval guess target)"
  have "length (result ?s) = length (guessLetters ?s)"
    using assms by (simp add: firstPass_initEval)
  from secondPass_sweep[OF this, of 0] show ?thesis
    by (simp add: checkGuess_def firstPass_initEval[OF assms])
qed

lemma count_list_update:
  "k < length xs \<Longrightarrow>
     count_list (xs[k := None]) (Some c) + (if xs ! k = Some c then 1 else 0) =
     count_list xs (Some c)"
proof (induction xs arbitrary: k)
  case Nil
  then show ?case by simp
next
  case (Cons a xs)
  show ?case
  proof (cases k)
    case 0
    then show ?thesis by simp
  next
    case (Suc m)
    with Cons.prems have "m < length xs" by simp
    from Cons.IH[OF this] Suc show ?thesis by simp
  qed
qed

lemma count_strike_first:
  assumes "Some a \<in> set ts"
  shows "count_list (strike_first ts (Some a)) (Some c) + (if a = c then 1 else 0) =
         count_list ts (Some c)"
proof -
  from js_indexOf_Some[OF assms] obtain k where
    k: "js_indexOf ts (Some a) = Some k" "k < length ts" "ts ! k = Some a" by blast
  from count_list_update[OF k(2), of c] k show ?thesis
    by (simp add: strike_first_def)
qed

lemma length_sweep: "length (sweep gs rs ts) = length rs"
  by (induction gs rs ts rule: sweep.induct) (auto split: option.splits)

lemma sweep_credit:
  assumes "length g = length t"
  shows "length (filter (\<lambda>(a, r). a = c \<and> (r = Some Correct \<or> r = Some Misplaced))
            (zip g (sweep (map (\<lambda>(a, b). if a = b then None else Some a) (zip g t))
                          (map (\<lambda>(a, b). if a = b then Some Correct else Some Wrong) (zip g t))
                          ts)))
       \<le> length (filter (\<lambda>(a, b). a = c \<and> a = b) (zip g t)) + count_list ts (Some c)"
  using assms
proof (induction g t arbitrary: ts rule: list_induct2)
  case Nil
  then show ?case by simp
next
  case (Cons a g b t)
  show ?case
  proof (cases "a = b")
    case True
    then show ?thesis using Cons.IH[of ts] by simp
  next
    case ne: False
    show ?thesis
    proof (cases "Some a \<in> set ts")
      case True
      from count_strike_first[OF True, of c] Cons.IH[of "strike_first ts (Some a)"] ne True
      show ?thesis by (simp split: if_splits)
    next
      case False
      then show ?thesis using ne Cons.IH[of ts] by simp
    qed
  qed
qed

lemma count_unmatched:
  assumes "length g = length t"
  shows "length (filter (\<lambda>(a, b). a = c \<and> a = b) (zip g t)) +
         count_list (map (\<lambda>(a, b). if a = b then None else Some b) (zip g t)) (Some c) =
         count_list t c"
  using assms by (induction g t rule: list_induct2) auto

lemma sweep_nth:
  assumes "length g = length t" "i < length t"
  shows "\<exists>st. sweep (map (\<lambda>(a, b). if a = b then None else Some a) (zip g t))
                     (map (\<lambda>(a, b). if a = b then Some Correct else Some Wrong) (zip g t))
                     ts ! i = Some st \<and> (st = Correct \<longleftrightarrow> g ! i = t ! i)"
  using assms
proof (induction g t arbitrary: ts i rule: list_induct2)
  case Nil
  then show ?case by simp
next
  case (Cons a g b t)
  then show ?case by (cases i) auto
qed

lemma sweep_correct_count:
  assumes "length g = length t"
  shows "length (filter (\<lambda>r. r = Some Correct)
            (sweep (map (\<lambda>(a, b). if a = b then None else Some a) (zip g t))
                   (map (\<lambda>(a, b). if a = b then Some Correct else Some Wrong) (zip g t))
                   ts))
       = length (filter (\<lambda>(a, b). a = b) (zip g t))"
  using assms
  by (induction g t arbitrary: ts rule: list_induct2) auto

section \<open>Properties of the guess evaluator\<close>

text \<open>
  Claim C1. For two words of five letters \<^verbatim>\<open>checkGuess\<close> returns five slots, each of
  them one of the three statuses (no hole), a slot is \<open>Correct\<close> exactly where the two
  words agree at that index, and so the number of \<open>Correct\<close> slots is the number of
  indices where the words agree. Nothing is asked of the letters themselves.
\<close>

theorem checkGuess_one_status_per_position:
  assumes "length guess = 5" and "length target = 5"
  shows "length (checkGuess guess target) = 5
       \<and> (\<forall>i<5. checkGuess guess target ! i \<in> {Some Correct, Some Misplaced, Some Wrong})
       \<and> (\<forall>i<5. checkGuess guess target ! i = Some Correct \<longleftrightarrow> guess ! i = target ! i)
       \<and> length (filter (\<lambda>r. r = Some Correct) (checkGuess guess target))
           = length (filter (\<lambda>(a, b). a = b) (zip guess target))"
proof -
  have gt: "length guess = length target" using assms by simp
  have 1: "length (checkGuess guess target) = 5"
    using assms by (simp add: checkGuess_sweep length_sweep)
  have 2: "checkGuess guess target ! i \<in> {Some Correct, Some Misplaced, Some Wrong}"
       "checkGuess guess target ! i = Some Correct \<longleftrightarrow> guess ! i = target ! i"
    if "i < 5" for i
  proof -
    from that assms have "i < length target" by simp
    from sweep_nth[OF gt this] obtain st where
      st: "checkGuess guess target ! i = Some st" "st = Correct \<longleftrightarrow> guess ! i = target ! i"
      unfolding checkGuess_sweep[OF assms] by blast
    show "checkGuess guess target ! i \<in> {Some Correct, Some Misplaced, Some Wrong}"
      using st(1) by (cases st) simp_all
    show "checkGuess guess target ! i = Some Correct \<longleftrightarrow> guess ! i = target ! i"
      using st by simp
  qed
  have 3: "length (filter (\<lambda>r. r = Some Correct) (checkGuess guess target))
           = length (filter (\<lambda>(a, b). a = b) (zip guess target))"
    unfolding checkGuess_sweep[OF assms] by (rule sweep_correct_count[OF gt])
  from 1 2 3 show ?thesis by blast
qed

theorem checkGuess_one_status_per_position_witness:
  "length ''serve'' = 5 \<and> length ''spice'' = 5
   \<and> checkGuess ''serve'' ''spice'' = [Some Correct, Some Wrong, Some Wrong, Some Wrong, Some Correct]
   \<and> length (filter (\<lambda>r. r = Some Correct) (checkGuess ''serve'' ''spice'')) = 2
   \<and> length (filter (\<lambda>(a, b). a = b) (zip ''serve'' ''spice'')) = 2"
proof -
  have c: "checkGuess ''serve'' ''spice'' = [Some Correct, Some Wrong, Some Wrong, Some Wrong, Some Correct]"
    by code_simp
  from checkGuess_one_status_per_position[of "''serve''" "''spice''"] c show ?thesis
    by simp
qed

text \<open>
  Claim C2. For two words of five letters and any letter \<open>c\<close>, the indices where the
  guess holds \<open>c\<close> and the status is \<open>Correct\<close> or \<open>Misplaced\<close> are at most as many as
  the occurrences of \<open>c\<close> in the target; for the guess \<^verbatim>\<open>eerie\<close> against the target
  \<^verbatim>\<open>arena\<close> exactly one index holding \<^verbatim>\<open>e\<close> is so marked.
\<close>

theorem checkGuess_bounds_repeated_letters:
  "(length guess = 5 \<and> length target = 5 \<longrightarrow>
      length (filter (\<lambda>(a, r). a = c \<and> (r = Some Correct \<or> r = Some Misplaced))
                (zip guess (checkGuess guess target)))
      \<le> count_list target c)
   \<and> length (filter (\<lambda>(a, r). a = CHR ''e'' \<and> (r = Some Correct \<or> r = Some Misplaced))
                (zip ''eerie'' (checkGuess ''eerie'' ''arena''))) = 1"
proof -
  have A: "length (filter (\<lambda>(a, r). a = c \<and> (r = Some Correct \<or> r = Some Misplaced))
                (zip guess (checkGuess guess target)))
      \<le> count_list target c" if l: "length guess = 5" "length target = 5"
  proof -
    have gt: "length guess = length target" using l by simp
    from sweep_credit[OF gt, of c "map (\<lambda>(a, b). if a = b then None else Some b) (zip guess target)"]
         count_unmatched[OF gt, of c]
    show ?thesis unfolding checkGuess_sweep[OF l] by linarith
  qed
  have B: "checkGuess ''eerie'' ''arena'' = [Some Misplaced, Some Wrong, Some Misplaced, Some Wrong, Some Wrong]"
    by code_simp
  show ?thesis using A by (simp add: B)
qed

theorem checkGuess_bounds_repeated_letters_witness:
  "length ''eerie'' = 5 \<and> length ''arena'' = 5
   \<and> length (filter (\<lambda>(a, r). a = CHR ''e'' \<and> (r = Some Correct \<or> r = Some Misplaced))
                (zip ''eerie'' (checkGuess ''eerie'' ''arena'')))
      \<le> count_list ''arena'' CHR ''e''
   \<and> count_list ''arena'' CHR ''e'' = 1"
  using checkGuess_bounds_repeated_letters[of "''eerie''" "''arena''" "CHR ''e''"]
  by simp

text \<open>
  Claim C3, as amended. For the guess \<^verbatim>\<open>grape\<close> and the target \<^verbatim>\<open>crane\<close> the
  statuses are wrong, correct, correct, wrong, correct: the letter \<^verbatim>\<open>a\<close> stands at
  index 2 in both words, and \<^verbatim>\<open>p\<close> does not occur in the target.
\<close>

theorem checkGuess_grape_crane:
  "checkGuess ''grape'' ''crane'' =
     [Some Wrong, Some Correct, Some Correct, Some Wrong, Some Correct]"
  by code_simp

text \<open>The sequence wrong, correct, wrong, misplaced, correct is not what is returned.\<close>

theorem checkGuess_grape_crane_counterexample:
  "checkGuess ''grape'' ''crane'' \<noteq>
     [Some Wrong, Some Correct, Some Wrong, Some Misplaced, Some Correct]"
  by code_simp

section \<open>Properties of word validation and of the choice of the target\<close>

lemma toLowerCaseChar_idem: "toLowerCaseChar (toLowerCaseChar c) = toLowerCaseChar c"
proof -
  have "of_char (char_of (of_char c + 32 :: nat)) = (of_char c + 32 :: nat)"
    if "(of_char c :: nat) \<le> 222"
    using that by (simp add: of_char_of)
  then show ?thesis
    by (auto simp: toLowerCaseChar_def Let_def)
qed

lemma toLowerCase_idem: "toLowerCase (toLowerCase w) = toLowerCase w"
  by (simp add: toLowerCase_def toLowerCaseChar_idem)

lemma tryBlock_cases:
  "tryBlock r = Inr (Some w) \<longleftrightarrow> (\<exists>s xs. r = Resolves (JArray (JString s # xs)) \<and> w = toLowerCase s)"
  by (auto simp: tryBlock_def split: remote.splits json.splits list.splits)

lemma fallback_index:
  assumes "0 \<le> u" "u < 1"
  shows "nat \<lfloor>u * real (length fallbackWords)\<rfloor> < length fallbackWords"
proof -
  have n: "length fallbackWords = 10" by (simp add: fallbackWords_def)
  have "u * 10 < 10" using assms by simp
  then have "\<lfloor>u * 10\<rfloor> < 10" by linarith
  moreover have "0 \<le> \<lfloor>u * 10\<rfloor>" using assms by simp
  ultimately have "nat \<lfloor>u * 10\<rfloor> < 10" by linarith
  then show ?thesis unfolding n by simp
qed

lemma getRandomWord_fallback:
  assumes "0 \<le> u" "u < 1" "\<And>s xs. r \<noteq> Resolves (JArray (JString s # xs))"
  shows "\<exists>w \<in> set fallbackWords. getRandomWord r u = Some w \<and> length w = 5"
proof -
  have "\<forall>w \<in> set fallbackWords. length w = 5" by (simp add: fallbackWords_def)
  moreover have "getRandomWord r u = js_nth fallbackWords (nat \<lfloor>u * real (length fallbackWords)\<rfloor>)"
    using assms(3) tryBlock_cases[of r]
    by (auto simp: getRandomWord_def split: sum.splits option.splits)
  ultimately show ?thesis using fallback_index[OF assms(1,2)]
    by (simp add: js_nth_def)
qed

lemma fallbackWords_valid: "w \<in> set fallbackWords \<Longrightarrow> isWordValid w"
proof -
  have "list_all isWordValid fallbackWords" by code_simp
  then show "w \<in> set fallbackWords \<Longrightarrow> isWordValid w"
    by (simp add: list_all_iff)
qed

text \<open>
  Claim C7. \<^verbatim>\<open>isWordValid\<close> holds of a word exactly when its lowercase form is in
  the local list \<open>fallbackWords\<close> of ten words; words with the same lowercase form
  are judged alike, and nothing but this list is consulted. It is the list from which the
  fallback target is drawn: when the remote call fails, the target is one of its words
  and is itself accepted.
\<close>

theorem isWordValid_fallback_list:
  "(isWordValid word \<longleftrightarrow> toLowerCase word \<in> set fallbackWords)
   \<and> (toLowerCase w1 = toLowerCase w2 \<longrightarrow> isWordValid w1 = isWordValid w2)
   \<and> isWordValid (toLowerCase word) = isWordValid word
   \<and> length fallbackWords = 10
   \<and> (0 \<le> u \<and> u < 1 \<longrightarrow>
        (\<exists>w \<in> set fallbackWords. getRandomWord FetchRejects u = Some w \<and> isWordValid w))"
proof -
  have "\<exists>w \<in> set fallbackWords. getRandomWord FetchRejects u = Some w \<and> isWordValid w"
    if "0 \<le> u" "u < 1"
    using getRandomWord_fallback[OF that, of FetchRejects] fallbackWords_valid by auto
  then show ?thesis
    by (simp add: isWordValid_def js_includes_set toLowerCase_idem fallbackWords_def)
qed

theorem isWordValid_fallback_list_witness:
  "toLowerCase ''Crane'' = toLowerCase ''CRANE''
   \<and> isWordValid ''Crane'' \<and> isWordValid ''CRANE''
   \<and> toLowerCase ''CRANE'' \<in> set fallbackWords
   \<and> \<not> isWordValid ''hello''
   \<and> (0::real) \<le> 17 / 20 \<and> (17 / 20 :: real) < 1
   \<and> getRandomWord FetchRejects (17 / 20) = Some ''crane''"
proof -
  have a: "toLowerCase ''Crane'' = ''crane''" "toLowerCase ''CRANE'' = ''crane''"
    by code_simp+
  have b: "isWordValid ''Crane''" "\<not> isWordValid ''hello''"
    "getRandomWord FetchRejects (17 / 20) = Some ''crane''"
    by code_simp+
  from isWordValid_fallback_list[of "''CRANE''" "''Crane''" "''CRANE''" "17 / 20"] a b
  show ?thesis by auto
qed

text \<open>
  Claim C4, at the input where it fails. When the remote call answers with a non-empty
  array whose first element is a string, \<^verbatim>\<open>getRandomWord\<close> returns that string in
  lowercase without looking at its length: a word of two letters, or the empty string.
  (\<open>getRandomWord_fallback\<close> above is the part of the claim that holds: every other
  answer of the remote call ends in a five-letter word of the local list, for
  \<^verbatim>\<open>Math.random()\<close> in its range from 0 up to but not including 1.)
\<close>

theorem getRandomWord_remote_word_unchecked:
  "getRandomWord (Resolves (JArray [JString ''Hi''])) u = Some ''hi''
   \<and> getRandomWord (Resolves (JArray [JString []])) u = Some []"
proof -
  have "toLowerCase ''Hi'' = ''hi''" "toLowerCase [] = []"
    by code_simp+
  then show ?thesis by (simp add: getRandomWord_def tryBlock_def)
qed

section \<open>Properties of the session\<close>

lemma page_of_emit [simp]:
  "state (emit es p) = state p" "listening (emit es p) = listening p"
  "effects (emit es p) = effects p @ es"
  by (simp_all add: emit_def)

lemma state_shakeMissingCells: "state (page_of (shakeMissingCells r p)) = state p"
  by (simp add: shakeMissingCells_def split: option.splits)

text \<open>
  Claim C5. A submission with the cursor before the last column leaves the session state
  (grid, row, cursor, target) as it was and shakes the missing cells of the row; a
  submission of a complete row whose word \<^verbatim>\<open>isWordValid\<close> rejects leaves the session
  state as it was and shakes the row with the message that the word is not valid. The
  effects of the two rejections differ.
\<close>

theorem submitGuess_rejections:
  "(currentCol (state p) < cols gameConfig \<longrightarrow>
      state (page_of (submitGuess p)) = state p)
   \<and> (currentCol (state p) < cols gameConfig
       \<and> js_nth (grid (state p)) (currentRow (state p)) = Some row \<longrightarrow>
      submitGuess p =
        Returned (emit [ShakeMissingCells (currentRow (state p))
                          (filter (\<lambda>c. case js_nth row c of None \<Rightarrow> True | Some v \<Rightarrow> v = [])
                             [0..<cols gameConfig])] p))
   \<and> (cols gameConfig \<le> currentCol (state q)
       \<and> js_nth (grid (state q)) (currentRow (state q)) = Some row'
       \<and> \<not> isWordValid (concat row') \<longrightarrow>
      submitGuess q =
        Returned (emit [ShakeRow (currentRow (state q)), ShowMessage NotAValidWord] q)
      \<and> state (page_of (submitGuess q)) = state q)
   \<and> (currentCol (state p) < cols gameConfig
       \<and> js_nth (grid (state p)) (currentRow (state p)) = Some row
       \<and> cols gameConfig \<le> currentCol (state q)
       \<and> js_nth (grid (state q)) (currentRow (state q)) = Some row'
       \<and> \<not> isWordValid (concat row') \<longrightarrow>
      drop (length (effects p)) (effects (page_of (submitGuess p)))
        \<noteq> drop (length (effects q)) (effects (page_of (submitGuess q))))"
  by (simp add: submitGuess_def Let_def shakeMissingCells_def state_shakeMissingCells
      split: option.splits)

theorem submitGuess_rejections_witness:
  "currentCol (state two_letters_page) < cols gameConfig
   \<and> js_nth (grid (state two_letters_page)) (currentRow (state two_letters_page))
       = Some [''a'', ''p'', [], [], []]
   \<and> cols gameConfig \<le> currentCol (state hello_page)
   \<and> js_nth (grid (state hello_page)) (currentRow (state hello_page))
       = Some [''h'', ''e'', ''l'', ''l'', ''o'']
   \<and> \<not> isWordValid (concat [''h'', ''e'', ''l'', ''l'', ''o''])
   \<and> submitGuess two_letters_page
       = Returned (emit [ShakeMissingCells 0 [2, 3, 4]] two_letters_page)
   \<and> submitGuess hello_page
       = Returned (emit [ShakeRow 0, ShowMessage NotAValidWord] hello_page)
   \<and> state (page_of (submitGuess two_letters_page)) = state two_letters_page
   \<and> state (page_of (submitGuess hello_page)) = state hello_page"
proof -
  have a: "currentCol (state two_letters_page) < cols gameConfig"
    "js_nth (grid (state two_letters_page)) (currentRow (state two_letters_page))
       = Some [''a'', ''p'', [], [], []]"
    "currentRow (state two_letters_page) = 0"
    unfolding two_letters_page_def by code_simp+
  have b: "cols gameConfig \<le> currentCol (state hello_page)"
    "js_nth (grid (state hello_page)) (currentRow (state hello_page))
       = Some [''h'', ''e'', ''l'', ''l'', ''o'']"
    "currentRow (state hello_page) = 0"
    unfolding hello_page_def by code_simp+
  have c: "\<not> isWordValid (concat [''h'', ''e'', ''l'', ''l'', ''o''])"
    by code_simp
  have d: "filter (\<lambda>c. case js_nth [''a'', ''p'', [], [], []] c of None \<Rightarrow> True | Some v \<Rightarrow> v = [])
             [0..<cols gameConfig] = [2, 3, 4]"
    by code_simp
  from submitGuess_rejections[of two_letters_page "[''a'', ''p'', [], [], []]" hello_page
      "[''h'', ''e'', ''l'', ''l'', ''o'']"] a b c d
  show ?thesis by simp
qed

text \<open>
  Claim C6, as amended. Whenever a complete row holds a word that \<^verbatim>\<open>isWordValid\<close>
  accepts and that equals the target, on any row and so on the last one too,
  \<^verbatim>\<open>submitGuess\<close> reveals the result, shows the winning message and no other,
  removes the key listener, and leaves the session state as it was; no key pressed
  afterwards changes the page.
\<close>

theorem submitGuess_accepted_target_wins:
  assumes "js_nth (grid (state p)) (currentRow (state p)) = Some row"
    and "cols gameConfig \<le> currentCol (state p)"
    and "isWordValid (concat row)"
    and "targetWord (state p) = Some (concat row)"
  shows "submitGuess p =
           Returned (p\<lparr>effects := effects p @
                          [RevealAttemptResult (currentRow (state p))
                             (checkGuess (concat row) (concat row)),
                           ShowMessage YouGotIt],
                        listening := False\<rparr>)
       \<and> state (page_of (submitGuess p)) = state p
       \<and> \<not> listening (page_of (submitGuess p))
       \<and> fold dispatch keys (page_of (submitGuess p)) = page_of (submitGuess p)"
proof -
  have 1: "submitGuess p =
           Returned (p\<lparr>effects := effects p @
                          [RevealAttemptResult (currentRow (state p))
                             (checkGuess (concat row) (concat row)),
                           ShowMessage YouGotIt],
                        listening := False\<rparr>)"
    using assms by (simp add: submitGuess_def Let_def emit_def)
  have 2: "fold dispatch keys q = q" if "\<not> listening q" for q
    using that by (induction keys) (simp_all add: dispatch_def)
  show ?thesis using 2[of "page_of (submitGuess p)"] by (simp add: 1)
qed

theorem submitGuess_accepted_target_wins_witness:
  "js_nth (grid (state last_row_page)) (currentRow (state last_row_page))
     = Some [''c'', ''r'', ''a'', ''n'', ''e'']
   \<and> currentRow (state last_row_page) + 1 = rows gameConfig
   \<and> cols gameConfig \<le> currentCol (state last_row_page)
   \<and> isWordValid (concat [''c'', ''r'', ''a'', ''n'', ''e''])
   \<and> targetWord (state last_row_page) = Some (concat [''c'', ''r'', ''a'', ''n'', ''e''])
   \<and> submitGuess last_row_page =
        Returned (last_row_page\<lparr>effects := effects last_row_page @
                      [RevealAttemptResult 5
                         [Some Correct, Some Correct, Some Correct, Some Correct, Some Correct],
                       ShowMessage YouGotIt],
                    listening := False\<rparr>)
   \<and> fold dispatch [''x'', ''Backspace'', ''Enter''] (page_of (submitGuess last_row_page))
       = page_of (submitGuess last_row_page)"
proof -
  have a: "js_nth (grid (state last_row_page)) (currentRow (state last_row_page))
     = Some [''c'', ''r'', ''a'', ''n'', ''e'']"
    "currentRow (state last_row_page) = 5"
    "cols gameConfig \<le> currentCol (state last_row_page)"
    "targetWord (state last_row_page) = Some (concat [''c'', ''r'', ''a'', ''n'', ''e''])"
    unfolding last_row_page_def by code_simp+
  have b: "isWordValid (concat [''c'', ''r'', ''a'', ''n'', ''e''])"
    "checkGuess (concat [''c'', ''r'', ''a'', ''n'', ''e'']) (concat [''c'', ''r'', ''a'', ''n'', ''e''])
      = [Some Correct, Some Correct, Some Correct, Some Correct, Some Correct]"
    "rows gameConfig = 6"
    by code_simp+
  note win = submitGuess_accepted_target_wins[OF a(1) a(3) b(1) a(4),
      of "[''x'', ''Backspace'', ''Enter'']"]
  have c: "currentRow (state last_row_page) + 1 = rows gameConfig"
    using a(2) b(3) by simp
  have d: "submitGuess last_row_page =
        Returned (last_row_page\<lparr>effects := effects last_row_page @
                      [RevealAttemptResult 5
                         [Some Correct, Some Correct, Some Correct, Some Correct, Some Correct],
                       ShowMessage YouGotIt],
                    listening := False\<rparr>)"
    using win a(2) b(2) by simp
  have e: "fold dispatch [''x'', ''Backspace'', ''Enter''] (page_of (submitGuess last_row_page))
       = page_of (submitGuess last_row_page)"
    using win by blast
  from a(1) c a(3) b(1) a(4) d e show ?thesis by blast
qed

text \<open>
  A target drawn from the remote list need not be in the local list: with the target
  \<^verbatim>\<open>hello\<close> and the row \<^verbatim>\<open>hello\<close> the submission is rejected as not a valid word,
  no winning message is shown and keys are still handled.
\<close>

theorem submitGuess_target_outside_list_counterexample:
  "js_nth (grid (state hello_page)) (currentRow (state hello_page))
     = Some [''h'', ''e'', ''l'', ''l'', ''o'']
   \<and> currentCol (state hello_page) = cols gameConfig
   \<and> targetWord (state hello_page) = Some (concat [''h'', ''e'', ''l'', ''l'', ''o''])
   \<and> submitGuess hello_page
       = Returned (emit [ShakeRow 0, ShowMessage NotAValidWord] hello_page)
   \<and> listening (page_of (submitGuess hello_page))
   \<and> ShowMessage YouGotIt \<notin> set (effects (page_of (submitGuess hello_page)))
   \<and> dispatch ''Backspace'' (page_of (submitGuess hello_page)) \<noteq> page_of (submitGuess hello_page)"
  unfolding hello_page_def by code_simp

text \<open>
  Claim C10. No submission changes the target word (or the grid). An accepted submission,
  that is a complete row with a word \<^verbatim>\<open>isWordValid\<close> accepts, leaves row and cursor
  as they were when the word is the target, and otherwise moves to the next row with the
  cursor at column 0.
\<close>

theorem submitGuess_frame:
  "targetWord (state (page_of (submitGuess p))) = targetWord (state p)
   \<and> grid (state (page_of (submitGuess p))) = grid (state p)
   \<and> (js_nth (grid (state p)) (currentRow (state p)) = Some row
       \<and> cols gameConfig \<le> currentCol (state p)
       \<and> isWordValid (concat row)
       \<and> targetWord (state p) = Some target \<longrightarrow>
        (concat row = target \<longrightarrow> state (page_of (submitGuess p)) = state p)
      \<and> (concat row \<noteq> target \<longrightarrow>
           state (page_of (submitGuess p)) =
             (state p)\<lparr>currentRow := currentRow (state p) + 1, currentCol := 0\<rparr>))"
  by (simp add: submitGuess_def Let_def state_shakeMissingCells split: option.splits)

theorem submitGuess_frame_witness:
  "js_nth (grid (state last_row_page)) (currentRow (state last_row_page))
     = Some [''c'', ''r'', ''a'', ''n'', ''e'']
   \<and> cols gameConfig \<le> currentCol (state last_row_page)
   \<and> isWordValid (concat [''c'', ''r'', ''a'', ''n'', ''e''])
   \<and> targetWord (state last_row_page) = Some ''crane''
   \<and> concat [''c'', ''r'', ''a'', ''n'', ''e''] = ''crane''
   \<and> state (page_of (submitGuess last_row_page)) = state last_row_page
   \<and> js_nth (grid (state apple_page)) (currentRow (state apple_page))
     = Some [''a'', ''p'', ''p'', ''l'', ''e'']
   \<and> cols gameConfig \<le> currentCol (state apple_page)
   \<and> isWordValid (concat [''a'', ''p'', ''p'', ''l'', ''e''])
   \<and> targetWord (state apple_page) = Some ''crane''
   \<and> concat [''a'', ''p'', ''p'', ''l'', ''e''] \<noteq> ''crane''
   \<and> state (page_of (submitGuess apple_page)) =
        (state apple_page)\<lparr>currentRow := 1, currentCol := 0\<rparr>"
proof -
  have a: "js_nth (grid (state last_row_page)) (currentRow (state last_row_page))
     = Some [''c'', ''r'', ''a'', ''n'', ''e'']"
    "cols gameConfig \<le> currentCol (state last_row_page)"
    "targetWord (state last_row_page) = Some ''crane''"
    unfolding last_row_page_def by code_simp+
  have b: "js_nth (grid (state apple_page)) (currentRow (state apple_page))
     = Some [''a'', ''p'', ''p'', ''l'', ''e'']"
    "cols gameConfig \<le> currentCol (state apple_page)"
    "targetWord (state apple_page) = Some ''crane''"
    "currentRow (state apple_page) = 0"
    unfolding apple_page_def by code_simp+
  have c: "isWordValid (concat [''c'', ''r'', ''a'', ''n'', ''e''])"
    "isWordValid (concat [''a'', ''p'', ''p'', ''l'', ''e''])"
    "concat [''c'', ''r'', ''a'', ''n'', ''e''] = ''crane''"
    "concat [''a'', ''p'', ''p'', ''l'', ''e''] \<noteq> ''crane''"
    by code_simp+
  have d: "state (page_of (submitGuess last_row_page)) = state last_row_page"
    using submitGuess_frame[of last_row_page "[''c'', ''r'', ''a'', ''n'', ''e'']" "''crane''"]
      a c(1,3) by blast
  have e: "state (page_of (submitGuess apple_page)) =
        (state apple_page)\<lparr>currentRow := currentRow (state apple_page) + 1, currentCol := 0\<rparr>"
    using submitGuess_frame[of apple_page "[''a'', ''p'', ''p'', ''l'', ''e'']" "''crane''"]
      b(1-3) c(2,4) by blast
  have f: "state (page_of (submitGuess apple_page)) =
        (state apple_page)\<lparr>currentRow := 1, currentCol := 0\<rparr>"
    using e b(4) by simp
  from a b(1-3) c d f show ?thesis by blast
qed

lemma slot_ok_lower:
  assumes "isLetter letter"
  shows "slot_ok (toLowerCase letter)"
proof -
  from assms obtain c where c: "letter = [c]"
    by (cases letter) (auto simp: isLetter_def)
  have r: "(97 \<le> (of_char c :: nat) \<and> (of_char c :: nat) \<le> 122)
         \<or> (65 \<le> (of_char c :: nat) \<and> (of_char c :: nat) \<le> 90)"
    using assms c by (simp add: isLetter_def Let_def)
  have "of_char (char_of (of_char c + 32 :: nat)) = (of_char c + 32 :: nat)"
    if "(of_char c :: nat) \<le> 90"
    using that by (simp add: of_char_of)
  with r show ?thesis
    by (auto simp: c slot_ok_def toLowerCase_def toLowerCaseChar_def Let_def)
qed

lemma slot_ok_empty: "slot_ok []"
  by (simp add: slot_ok_def)

lemma set_slot_ok:
  assumes "list_all slot_ok xs" "slot_ok v"
  shows "list_all slot_ok (set_slot xs i v)"
  using assms
  by (auto simp: set_slot_def list_all_iff slot_ok_empty dest: set_update_subset_insert[THEN subsetD])

lemma set_slot_nth: "set_slot xs i v ! i = v"
  by (simp add: set_slot_def nth_append)

lemma grid_ok_update:
  assumes "grid_ok g" "list_all slot_ok row"
  shows "grid_ok (g[r := row])"
  using assms
  by (auto simp: grid_ok_def list_all_iff dest: set_update_subset_insert[THEN subsetD])

lemma grid_ok_row:
  assumes "grid_ok g" "js_nth g r = Some row"
  shows "list_all slot_ok row"
  using assms by (auto simp: grid_ok_def js_nth_def list_all_length split: if_splits)

lemma addLetter_grid_ok:
  assumes "isLetter letter" "grid_ok (grid (state p))"
  shows "grid_ok (grid (state (page_of (addLetter letter p))))"
  using assms
  by (auto simp: addLetter_def Let_def page_of_emit(1) split: option.splits
      intro!: grid_ok_update set_slot_ok slot_ok_lower elim: grid_ok_row)

lemma removeLetter_grid_ok:
  assumes "grid_ok (grid (state p))"
  shows "grid_ok (grid (state (page_of (removeLetter p))))"
  using assms
  by (auto simp: removeLetter_def Let_def page_of_emit(1) split: option.splits
      intro!: grid_ok_update set_slot_ok slot_ok_empty elim: grid_ok_row)

lemma submitGuess_grid: "grid (state (page_of (submitGuess p))) = grid (state p)"
  by (simp add: submitGuess_def Let_def shakeMissingCells_def page_of_emit(1) split: option.splits)

lemma dispatch_grid_ok:
  assumes "grid_ok (grid (state p))"
  shows "grid_ok (grid (state (dispatch key p)))"
  using assms
  by (simp add: dispatch_def handleKeydown_def addLetter_grid_ok removeLetter_grid_ok
      submitGuess_grid)

lemma fold_dispatch_grid_ok:
  assumes "grid_ok (grid (state p))"
  shows "grid_ok (grid (state (fold dispatch keys p)))"
  using assms by (induction keys arbitrary: p) (simp_all add: dispatch_grid_ok)

lemma initialiseGame_grid_ok: "grid_ok (grid (initialiseGame r u st))"
  by (simp add: initialiseGame_def grid_ok_def list_all_iff slot_ok_empty)

text \<open>
  Claim C9. After \<^verbatim>\<open>initialiseGame\<close> every slot of the grid is the empty string or
  one lowercase letter. \<^verbatim>\<open>addLetter\<close>, called with a key that \<^verbatim>\<open>isLetter\<close>
  accepts, stores the lowercase form of the key, and it, \<^verbatim>\<open>removeLetter\<close> and
  \<^verbatim>\<open>submitGuess\<close> keep the property; so it holds after any sequence of key presses.
\<close>

theorem grid_slots_invariant:
  "grid_ok (grid (initialiseGame r u st))
   \<and> (isLetter letter \<and> grid_ok (grid (state p)) \<longrightarrow>
        grid_ok (grid (state (page_of (addLetter letter p)))))
   \<and> (isLetter letter
       \<and> currentCol (state p) < cols gameConfig \<and> currentRow (state p) < rows gameConfig
       \<and> currentRow (state p) < length (grid (state p)) \<longrightarrow>
        grid (state (page_of (addLetter letter p))) ! currentRow (state p) ! currentCol (state p)
          = toLowerCase letter
        \<and> slot_ok (toLowerCase letter))
   \<and> (grid_ok (grid (state p)) \<longrightarrow> grid_ok (grid (state (page_of (removeLetter p)))))
   \<and> (grid_ok (grid (state p)) \<longrightarrow> grid_ok (grid (state (page_of (submitGuess p)))))
   \<and> grid_ok (grid (state (fold dispatch keys (domContentLoaded r u))))"
proof -
  have store: "grid (state (page_of (addLetter letter p))) ! currentRow (state p) ! currentCol (state p)
          = toLowerCase letter"
    if "currentCol (state p) < cols gameConfig" "currentRow (state p) < rows gameConfig"
       "currentRow (state p) < length (grid (state p))"
    using that by (simp add: addLetter_def Let_def js_nth_def page_of_emit(1) set_slot_nth)
  have run: "grid_ok (grid (state (fold dispatch keys (domContentLoaded r u))))"
    by (rule fold_dispatch_grid_ok) (simp add: domContentLoaded_def initialiseGame_grid_ok)
  show ?thesis
    using store run
    by (simp add: initialiseGame_grid_ok addLetter_grid_ok removeLetter_grid_ok
        submitGuess_grid slot_ok_lower)
qed

theorem grid_slots_invariant_witness:
  "isLetter ''A''
   \<and> grid_ok (grid (state (domContentLoaded FetchRejects 0)))
   \<and> currentCol (state (domContentLoaded FetchRejects 0)) < cols gameConfig
   \<and> currentRow (state (domContentLoaded FetchRejects 0)) < rows gameConfig
   \<and> currentRow (state (domContentLoaded FetchRejects 0))
       < length (grid (state (domContentLoaded FetchRejects 0)))
   \<and> grid (state (page_of (addLetter ''A'' (domContentLoaded FetchRejects 0)))) ! 0 ! 0 = ''a''
   \<and> grid_ok (grid (state (page_of (addLetter ''A'' (domContentLoaded FetchRejects 0)))))
   \<and> grid_ok (grid (state (page_of (removeLetter (domContentLoaded FetchRejects 0)))))
   \<and> grid_ok (grid (state (page_of (submitGuess (domContentLoaded FetchRejects 0)))))"
proof -
  let ?p = "domContentLoaded FetchRejects 0"
  have a: "isLetter ''A''" "toLowerCase ''A'' = ''a''"
    by code_simp+
  have b: "currentCol (state ?p) = 0" "currentRow (state ?p) = 0"
    "length (grid (state ?p)) = 6" "cols gameConfig = 5" "rows gameConfig = 6"
    by (simp_all add: domContentLoaded_def initialiseGame_def gameConfig_def)
  note inv = grid_slots_invariant[of FetchRejects 0 gameState0 "''A''" ?p "[]"]
  have c: "grid_ok (grid (state ?p))" using inv by simp
  have d: "grid (state (page_of (addLetter ''A'' ?p))) ! 0 ! 0 = ''a''"
    using inv a b by simp
  from inv a b c d show ?thesis by simp
qed

section \<open>The evaluator over a store computes the evaluator over lists\<close>

declare firstPassIn.simps [simp del] secondPassIn.simps [simp del]

lemma letter_val_eq [simp]: "letter_val a = letter_val b \<longleftrightarrow> a = b"
  by (cases a; cases b) simp_all

lemma letter_val_defined [simp]: "letter_val a \<noteq> Undefined" "Undefined \<noteq> letter_val a"
  by (cases a; simp)+

lemma truthy_letter_val [simp]: "truthy (letter_val a) \<longleftrightarrow> a \<noteq> None"
  by (cases a) (simp_all add: truthy_def)

lemma read_slot_letters:
  "read_slot (map letter_val xs) i = (if i < length xs then letter_val (xs ! i) else Undefined)"
  by (simp add: read_slot_def)

lemma write_slot_status:
  "write_slot (map status_val xs) i (status_val (Some v)) = map status_val (js_set xs i v)"
  by (simp add: write_slot_def js_set_def map_update)

lemma write_slot_letter:
  "i < length xs \<Longrightarrow> write_slot (map letter_val xs) i Null = map letter_val (xs[i := None])"
  by (simp add: write_slot_def map_update)

lemma js_includes_letters [simp]:
  "js_includes (map letter_val xs) (letter_val x) = js_includes xs x"
  by (induction xs) simp_all

lemma js_indexOf_letters [simp]:
  "js_indexOf (map letter_val xs) (letter_val x) = js_indexOf xs x"
  by (induction xs) simp_all

lemma same_outside_refl: "same_outside A w w"
  by (simp add: same_outside_def)

lemma same_outside_trans:
  "same_outside A w w' \<Longrightarrow> same_outside A w' w'' \<Longrightarrow> same_outside A w w''"
  by (simp add: same_outside_def)

lemma firstStepIn_sim:
  assumes "sim r t g w s" "r \<noteq> t" "r \<noteq> g" "t \<noteq> g" "i < length (guessLetters s)"
  shows "sim r t g (firstStepIn r t g i w) (firstStep i s)"
    and "same_outside {r, t, g} w (firstStepIn r t g i w)"
proof -
  have c: "read_slot (heap w g) i = read_slot (heap w t) i
       \<longleftrightarrow> i < length (targetLetters s) \<and> guessLetters s ! i = targetLetters s ! i"
    using assms(1,5) by (simp add: sim_def read_slot_letters)
  have corr: "Str ''correct'' = status_val (Some Correct)" by simp
  show "sim r t g (firstStepIn r t g i w) (firstStep i s)"
    using assms c
    by (simp add: firstStepIn_def firstStep_def sim_def array_set_def
        write_slot_letter write_slot_status[of _ _ Correct, simplified])
  show "same_outside {r, t, g} w (firstStepIn r t g i w)"
    by (simp add: firstStepIn_def same_outside_def array_set_def)
qed

lemma firstPassIn_sim:
  assumes "sim r t g w s" "r \<noteq> t" "r \<noteq> g" "t \<noteq> g"
  shows "sim r t g (firstPassIn r t g i w) (firstPass i s)
       \<and> same_outside {r, t, g} w (firstPassIn r t g i w)"
  using assms
proof (induction r t g i w arbitrary: s rule: firstPassIn.induct)
  case (1 r t g i w)
  have len: "length (heap w g) = length (guessLetters s)"
    using 1(2) by (simp add: sim_def)
  show ?case
  proof (cases "i < length (guessLetters s)")
    case False
    then show ?thesis
      using 1(2) len
      by (simp add: firstPassIn.simps[of r t g i w] firstPass.simps[of i s] same_outside_refl)
  next
    case True
    note step = firstStepIn_sim[OF 1(2-5) True]
    from True len have "i < length (heap w g)" by simp
    from 1(1)[OF this step(1) 1(3-5)] step(2) True len
    show ?thesis
      by (auto simp: firstPassIn.simps[of r t g i w] firstPass.simps[of i s]
          intro: same_outside_trans)
  qed
qed

lemma secondStepIn_sim:
  assumes "sim r t g w s" "r \<noteq> t" "r \<noteq> g" "t \<noteq> g" "i < length (guessLetters s)"
  shows "sim r t g (secondStepIn r t g i w) (secondStep i s)"
    and "same_outside {r, t, g} w (secondStepIn r t g i w)"
proof -
  have rd: "read_slot (heap w g) i = letter_val (guessLetters s ! i)"
    using assms(1,5) by (simp add: sim_def read_slot_letters)
  show "sim r t g (secondStepIn r t g i w) (secondStep i s)"
  proof (cases "guessLetters s ! i")
    case None
    then show ?thesis using assms(1) rd by (simp add: secondStepIn_def secondStep_def truthy_def)
  next
    case (Some c)
    show ?thesis
    proof (cases "js_includes (targetLetters s) (Some c)")
      case False
      then show ?thesis
        using assms(1) rd Some
        by (simp add: secondStepIn_def secondStep_def sim_def truthy_def
            js_includes_letters[of _ "Some c", simplified])
    next
      case True
      then obtain k where k: "js_indexOf (targetLetters s) (Some c) = Some k"
        "k < length (targetLetters s)"
        using js_indexOf_Some[of "Some c" "targetLetters s"] by (auto simp: js_includes_set)
      show ?thesis
        using assms(1-4) rd Some True k
        by (simp add: secondStepIn_def secondStep_def sim_def Let_def array_set_def
            read_slot_letters assms(5) truthy_def
            js_includes_letters[of _ "Some c", simplified]
            js_indexOf_letters[of _ "Some c", simplified]
            write_slot_letter write_slot_status[of _ _ Misplaced, simplified])
    qed
  qed
  show "same_outside {r, t, g} w (secondStepIn r t g i w)"
    by (simp add: secondStepIn_def same_outside_def array_set_def Let_def split: option.splits)
qed

lemma secondPassIn_sim:
  assumes "sim r t g w s" "r \<noteq> t" "r \<noteq> g" "t \<noteq> g"
  shows "sim r t g (secondPassIn r t g i w) (secondPass i s)
       \<and> same_outside {r, t, g} w (secondPassIn r t g i w)"
  using assms
proof (induction r t g i w arbitrary: s rule: secondPassIn.induct)
  case (1 r t g i w)
  have len: "length (heap w g) = length (guessLetters s)"
    using 1(2) by (simp add: sim_def)
  show ?case
  proof (cases "i < length (guessLetters s)")
    case False
    then show ?thesis
      using 1(2) len
      by (simp add: secondPassIn.simps[of r t g i w] secondPass.simps[of i s] same_outside_refl)
  next
    case True
    note step = secondStepIn_sim[OF 1(2-5) True]
    from True len have "i < length (heap w g)" by simp
    from 1(1)[OF this step(1) 1(3-5)] step(2) True len
    show ?thesis
      by (auto simp: secondPassIn.simps[of r t g i w] secondPass.simps[of i s]
          intro: same_outside_trans)
  qed
qed

lemma checkGuessIn_result:
  "fst (checkGuessIn guess target w) = nextAddr w
   \<and> heap (snd (checkGuessIn guess target w)) (nextAddr w) = map status_val (checkGuess guess target)
   \<and> globals (snd (checkGuessIn guess target w)) = globals w
   \<and> nextAddr (snd (checkGuessIn guess target w)) = nextAddr w + 3
   \<and> (\<forall>a. a < nextAddr w \<longrightarrow> heap (snd (checkGuessIn guess target w)) a = heap w a)"
proof -
  let ?r = "nextAddr w" and ?t = "Suc (nextAddr w)" and ?g = "Suc (Suc (nextAddr w))"
  let ?w3 = "w\<lparr>heap := (heap w)
                 (?r := replicate (wordLength gameConfig) (Str ''wrong''),
                  ?t := map (\<lambda>c. Str [c]) target,
                  ?g := map (\<lambda>c. Str [c]) guess),
               nextAddr := Suc (Suc (Suc (nextAddr w)))\<rparr>"
  let ?s = "initEval guess target"
  have call: "checkGuessIn guess target w
                = (?r, secondPassIn ?r ?t ?g 0 (firstPassIn ?r ?t ?g 0 ?w3))"
    by (simp add: checkGuessIn_def alloc_def)
  have wr: "Str ''wrong'' = status_val (Some Wrong)" by simp
  have s0: "sim ?r ?t ?g ?w3 ?s"
    by (simp add: sim_def initEval_def comp_def)
  have d: "?r \<noteq> ?t" "?r \<noteq> ?g" "?t \<noteq> ?g" by simp_all
  note p1 = firstPassIn_sim[OF s0 d, of 0]
  note p2 = secondPassIn_sim[OF p1[THEN conjunct1] d, of 0]
  have fr: "same_outside {?r, ?t, ?g} ?w3 (secondPassIn ?r ?t ?g 0 (firstPassIn ?r ?t ?g 0 ?w3))"
    using p1 p2 by (blast intro: same_outside_trans)
  show ?thesis
    using p2[THEN conjunct1] fr
    by (simp add: call sim_def same_outside_def checkGuess_def)
qed

text \<open>
  Claim C8. A call of \<^verbatim>\<open>checkGuess\<close> returns an array whose slots depend on the guess
  and the target alone: from any two stores, whatever the page state and the arrays they
  hold, two calls on the same words return arrays with the same slots, namely the
  statuses that the evaluator over lists computes. A call changes neither the page state
  nor any array that existed before it, so there is nothing a later call could find
  changed: the array of a first call is still the same after a second call.
\<close>

theorem checkGuess_no_hidden_state:
  "heap (snd (checkGuessIn guess target w1)) (fst (checkGuessIn guess target w1))
     = heap (snd (checkGuessIn guess target w2)) (fst (checkGuessIn guess target w2))
   \<and> heap (snd (checkGuessIn guess target w1)) (fst (checkGuessIn guess target w1))
     = map status_val (checkGuess guess target)
   \<and> globals (snd (checkGuessIn guess target w1)) = globals w1
   \<and> (\<forall>a < nextAddr w1. heap (snd (checkGuessIn guess target w1)) a = heap w1 a)
   \<and> heap (snd (checkGuessIn guess target (snd (checkGuessIn guess target w1))))
          (fst (checkGuessIn guess target w1))
     = heap (snd (checkGuessIn guess target w1)) (fst (checkGuessIn guess target w1))"
proof -
  note a = checkGuessIn_result[of guess target w1]
  note b = checkGuessIn_result[of guess target w2]
  note c = checkGuessIn_result[of guess target "snd (checkGuessIn guess target w1)"]
  have "nextAddr w1 < nextAddr (snd (checkGuessIn guess target w1))"
    using a by simp
  with c have "heap (snd (checkGuessIn guess target (snd (checkGuessIn guess target w1))))
          (nextAddr w1)
     = heap (snd (checkGuessIn guess target w1)) (nextAddr w1)"
    by blast
  with a b show ?thesis by simp
qed

theorem checkGuess_no_hidden_state_witness:
  "heap (snd (checkGuessIn ''apple'' ''crane'' fresh_world))
        (fst (checkGuessIn ''apple'' ''crane'' fresh_world))
     = [Str ''misplaced'', Str ''wrong'', Str ''wrong'', Str ''wrong'', Str ''correct'']
   \<and> heap (snd (checkGuessIn ''apple'' ''crane'' used_world))
        (fst (checkGuessIn ''apple'' ''crane'' used_world))
     = [Str ''misplaced'', Str ''wrong'', Str ''wrong'', Str ''wrong'', Str ''correct'']
   \<and> globals fresh_world \<noteq> globals used_world
   \<and> (0::nat) < nextAddr used_world
   \<and> heap used_world 0
     = [Str ''wrong'', Str ''correct'', Str ''correct'', Str ''wrong'', Str ''correct'']
   \<and> heap (snd (checkGuessIn ''apple'' ''crane'' used_world)) 0 = heap used_world 0
   \<and> globals (snd (checkGuessIn ''apple'' ''crane'' used_world)) = globals used_world"
proof -
  note t = checkGuess_no_hidden_state[of "''apple''" "''crane''" used_world fresh_world]
  have v: "map status_val (checkGuess ''apple'' ''crane'')
      = [Str ''misplaced'', Str ''wrong'', Str ''wrong'', Str ''wrong'', Str ''correct'']"
    by code_simp
  have u: "(0::nat) < nextAddr used_world"
    "heap used_world 0
     = [Str ''wrong'', Str ''correct'', Str ''correct'', Str ''wrong'', Str ''correct'']"
    unfolding used_world_def by code_simp+
  have g: "globals fresh_world \<noteq> globals used_world"
    unfolding used_world_def fresh_world_def apple_page_def second_apple_page_def by code_simp
  have 1: "heap (snd (checkGuessIn ''apple'' ''crane'' used_world))
        (fst (checkGuessIn ''apple'' ''crane'' used_world))
     = [Str ''misplaced'', Str ''wrong'', Str ''wrong'', Str ''wrong'', Str ''correct'']"
    by (rule trans[OF t[THEN conjunct2, THEN conjunct1] v])
  have e: "heap (snd (checkGuessIn ''apple'' ''crane'' used_world))
        (fst (checkGuessIn ''apple'' ''crane'' used_world))
     = heap (snd (checkGuessIn ''apple'' ''crane'' fresh_world))
        (fst (checkGuessIn ''apple'' ''crane'' fresh_world))"
    using t by blast
  have 2: "heap (snd (checkGuessIn ''apple'' ''crane'' fresh_world))
        (fst (checkGuessIn ''apple'' ''crane'' fresh_world))
     = [Str ''misplaced'', Str ''wrong'', Str ''wrong'', Str ''wrong'', Str ''correct'']"
    by (rule trans[OF e[symmetric] 1])
  have 3: "heap (snd (checkGuessIn ''apple'' ''crane'' used_world)) 0 = heap used_world 0"
    using t u(1) by blast
  have 4: "globals (snd (checkGuessIn ''apple'' ''crane'' used_world)) = globals used_world"
    using t by blast
  from 1 2 3 4 u g show ?thesis by blast
qed

end
